theory Spec2Isabelle
  imports Main
begin

section \<open>Go values used by cursor.go\<close>

text \<open>
  A \<^verbatim>\<open>rune\<close> is Go's \<^verbatim>\<open>int32\<close> code point, a \<^verbatim>\<open>string\<close> is a sequence of bytes
  holding UTF-8, and \<^verbatim>\<open>int\<close> is a 64-bit two's complement integer. Runes and Go ints
  are HOL integers (the wrap-around of \<^verbatim>\<open>int\<close> addition is written out in \<open>int64\<close>),
  bytes are natural numbers below 256.
\<close>

type_synonym rune = int
type_synonym byte = nat
type_synonym gostring = "byte list"

definition int64 :: "int \<Rightarrow> int" where
  "int64 i = (i + 2 ^ 63) mod 2 ^ 64 - 2 ^ 63"

text \<open>A string literal of the source, written with HOL characters, as its bytes.\<close>

definition lit :: "string \<Rightarrow> gostring" where
  "lit s = map of_char s"

subsection \<open>The conversions \<^verbatim>\<open>string(rs)\<close> and \<^verbatim>\<open>[]rune(s)\<close>\<close>

text \<open>
  \<^verbatim>\<open>string(rs)\<close> on a rune slice concatenates the UTF-8 encoding of each rune; a rune
  that is no Unicode scalar value (negative, a surrogate, or above U+10FFFF) is encoded
  as U+FFFD. This is \<^verbatim>\<open>encoderune\<close> of the Go runtime, with shifts and masks written
  as division and remainder.
\<close>

definition encoderune :: "rune \<Rightarrow> byte list" where
  "encoderune r =
     (if 0 \<le> r \<and> r \<le> 0x7F then [nat r]
      else if 0 \<le> r \<and> r \<le> 0x7FF then
        [0xC0 + nat r div 64, 0x80 + nat r mod 64]
      else if r < 0 \<or> 0x10FFFF < r \<or> (0xD800 \<le> r \<and> r \<le> 0xDFFF) then
        [0xEF, 0xBF, 0xBD]
      else if r \<le> 0xFFFF then
        [0xE0 + nat r div 4096, 0x80 + nat r div 64 mod 64, 0x80 + nat r mod 64]
      else
        [0xF0 + nat r div 262144, 0x80 + nat r div 4096 mod 64,
         0x80 + nat r div 64 mod 64, 0x80 + nat r mod 64])"

definition string_of_runes :: "rune list \<Rightarrow> gostring" where
  "string_of_runes rs = concat (map encoderune rs)"

text \<open>
  \<^verbatim>\<open>[]rune(s)\<close> ranges over the string: an ASCII byte is its own rune, any other
  position is decoded by the runtime's \<^verbatim>\<open>decoderune\<close>, which yields U+FFFD and
  advances one byte on every ill-formed sequence.
\<close>

definition locb_hicb :: "byte \<Rightarrow> bool" where
  "locb_hicb b = (0x80 \<le> b \<and> b \<le> 0xBF)"

fun decoderune :: "byte list \<Rightarrow> rune \<times> nat" where
  "decoderune [] = (0xFFFD, 1)"
| "decoderune (s0 # t) =
     (if 0xC0 \<le> s0 \<and> s0 < 0xE0 then
        (case t of
           s1 # _ \<Rightarrow>
             if locb_hicb s1 then
               (let r = s0 mod 32 * 64 + s1 mod 64
                in if 0x7F < r then (int r, 2) else (0xFFFD, 1))
             else (0xFFFD, 1)
         | _ \<Rightarrow> (0xFFFD, 1))
      else if 0xE0 \<le> s0 \<and> s0 < 0xF0 then
        (case t of
           s1 # s2 # _ \<Rightarrow>
             if locb_hicb s1 \<and> locb_hicb s2 then
               (let r = s0 mod 16 * 4096 + s1 mod 64 * 64 + s2 mod 64
                in if 0x7FF < r \<and> \<not> (0xD800 \<le> r \<and> r \<le> 0xDFFF) then (int r, 3)
                   else (0xFFFD, 1))
             else (0xFFFD, 1)
         | _ \<Rightarrow> (0xFFFD, 1))
      else if 0xF0 \<le> s0 \<and> s0 < 0xF8 then
        (case t of
           s1 # s2 # s3 # _ \<Rightarrow>
             if locb_hicb s1 \<and> locb_hicb s2 \<and> locb_hicb s3 then
               (let r = s0 mod 8 * 262144 + s1 mod 64 * 4096 + s2 mod 64 * 64 + s3 mod 64
                in if 0xFFFF < r \<and> r \<le> 0x10FFFF then (int r, 4) else (0xFFFD, 1))
             else (0xFFFD, 1)
         | _ \<Rightarrow> (0xFFFD, 1))
      else (0xFFFD, 1))"

fun runes_of_string :: "gostring \<Rightarrow> rune list" where
  "runes_of_string [] = []"
| "runes_of_string (b # t) =
     (if b < 0x80 then int b # runes_of_string t
      else (let (r, n) = decoderune (b # t) in r # runes_of_string (drop (n - 1) t)))"

section \<open>The marker strategies\<close>

text \<open>
  A \<^verbatim>\<open>Pointer\<close> is a Go function from a rune slice to a rune slice. The slice it
  receives is a window on an array, and the function may read and write every cell of
  that array from the start of the slice up to its capacity. So a \<open>Pointer\<close> takes the
  runes of the slice (\<open>to\<close>) and the runes of the cells after them up to the capacity
  (\<open>beyond\<close>), and returns the runes of its result with the runes it leaves in the
  leading cells of \<open>to @ beyond\<close> (none when it writes nothing; the cells it does not
  name keep their runes, see \<open>overwrite\<close>). A \<open>Pointer\<close> is taken to return, and to
  depend on nothing but these cells.
\<close>

type_synonym Pointer = "rune list \<Rightarrow> rune list \<Rightarrow> rune list \<times> rune list"

definition overwrite :: "rune list \<Rightarrow> rune list \<Rightarrow> rune list" where
  "overwrite written cells = take (length cells) written @ drop (length written) cells"

text \<open>
  The three functions of the source read their argument, build their result in a new
  array and write to no cell they were given: each is a function of the runes of its
  argument, and \<open>reads_only\<close> makes it the \<open>Pointer\<close> that a cursor holds.
\<close>

definition reads_only :: "(rune list \<Rightarrow> rune list) \<Rightarrow> Pointer" where
  "reads_only f to beyond = (f to, [])"

definition defaultCursor :: "rune list \<Rightarrow> rune list" where
  "defaultCursor ignored = runes_of_string [0xE2, 0x96, 0x88]"

text \<open>
  The format string of \<^verbatim>\<open>blockCursor\<close> is the Go literal \<^verbatim>\<open>"\\e[7m%s\\e[0m"\<close>: its
  first two bytes are a backslash (0x5C) and the letter e (0x65).
\<close>

definition blockCursor :: "rune list \<Rightarrow> rune list" where
  "blockCursor input =
     runes_of_string ([0x5C, 0x65, 0x5B, 0x37, 0x6D] @ string_of_runes input
                      @ [0x5C, 0x65, 0x5B, 0x30, 0x6D])"

definition pipeCursor :: "rune list \<Rightarrow> rune list" where
  "pipeCursor input =
     (let marker = runes_of_string (lit ''|'');
          out = [];
          out = out @ marker;
          out = out @ input
      in out)"

definition DefaultCursor :: Pointer where
  "DefaultCursor = reads_only defaultCursor"

definition BlockCursor :: Pointer where
  "BlockCursor = reads_only blockCursor"

definition PipeCursor :: Pointer where
  "PipeCursor = reads_only pipeCursor"

section \<open>The cursor\<close>

text \<open>
  The field \<open>Cursor\<close> is a Go function value: \<open>None\<close> is \<^verbatim>\<open>nil\<close>. A call of a nil
  function and a slice expression out of range panic; a panic is the \<open>Inl\<close> result.
\<close>

datatype panic = SliceBoundsOutOfRange | NilFunctionCall

record Cursor =
  Cursor :: "Pointer option"
  Input :: "rune list"
  Position :: int
  erase :: bool

definition correctPosition :: "Cursor \<Rightarrow> Cursor" where
  "correctPosition c =
     (let c1 = (if Position c > int (length (Input c))
                then c\<lparr>Position := int (length (Input c))\<rparr> else c)
      in if Position c1 < 0 then c1\<lparr>Position := 0\<rparr> else c1)"

definition Place :: "int \<Rightarrow> Cursor \<Rightarrow> Cursor" where
  "Place position c = correctPosition (c\<lparr>Position := position\<rparr>)"

definition Move :: "int \<Rightarrow> Cursor \<Rightarrow> Cursor" where
  "Move shift c = correctPosition (c\<lparr>Position := int64 (Position c + shift)\<rparr>)"

definition End :: "Cursor \<Rightarrow> Cursor" where
  "End c = Place (int (length (Input c))) c"

definition Start :: "Cursor \<Rightarrow> Cursor" where
  "Start c = Place 0 c"

definition NewCursor :: "gostring \<Rightarrow> Pointer option \<Rightarrow> bool \<Rightarrow> Cursor" where
  "NewCursor startingInput pointer eraseDefault =
     (let pointer = (case pointer of None \<Rightarrow> Some (reads_only defaultCursor)
                                    | Some p \<Rightarrow> Some p);
          cur = \<lparr>Cursor = pointer, Input = runes_of_string startingInput,
                 Position = int (length startingInput), erase = eraseDefault\<rparr>
      in if eraseDefault then Start cur else End cur)"

text \<open>
  \<^verbatim>\<open>format\<close> gets the slice \<^verbatim>\<open>a\<close> as its runes \<open>a\<close> and the runes \<open>spare\<close> of the
  cells of its array beyond its length. The slice \<^verbatim>\<open>a[i : i+1]\<close> panics on a negative
  \<^verbatim>\<open>i\<close>, before the marker is called; the conversion \<^verbatim>\<open>[]rune(...)\<close> of a rune slice
  copies nothing, so the marker receives the cell \<^verbatim>\<open>a[i]\<close> itself, with every cell after
  it up to the capacity in reach. What the marker leaves in these cells is what
  \<^verbatim>\<open>a[i+1:]\<close> reads afterwards; \<^verbatim>\<open>out\<close> is a new array. In the other branch the marker
  receives a new empty slice. The result is the string together with the runes of \<open>a\<close>
  and of the spare cells after the call.
\<close>

definition format ::
  "rune list \<Rightarrow> rune list \<Rightarrow> Cursor \<Rightarrow> panic + (gostring \<times> rune list \<times> rune list)" where
  "format a spare c =
     (let i = Position c
      in if i < int (length a) then
           (if i < 0 then Inl SliceBoundsOutOfRange
            else case Cursor c of
                   None \<Rightarrow> Inl NilFunctionCall
                 | Some marker \<Rightarrow>
                     (let (b, written) =
                            marker (take 1 (drop (nat i) a)) (drop (nat i + 1) a @ spare);
                          cells = take (nat i) a @ overwrite written (drop (nat i) a @ spare);
                          spare = drop (length a) cells;
                          a = take (length a) cells;
                          out = [];
                          out = out @ take (nat i) a;
                          out = out @ b;
                          out = out @ drop (nat i + 1) a
                      in Inr (string_of_runes out, a, spare)))
         else
           (case Cursor c of
              None \<Rightarrow> Inl NilFunctionCall
            | Some marker \<Rightarrow>
                (let (b, written) = marker [] [];
                     out = [];
                     out = out @ a;
                     out = out @ b
                 in Inr (string_of_runes out, a, spare))))"

text \<open>
  The record holds the runes of \<^verbatim>\<open>c.Input\<close>, not the cells of its array beyond its
  length. Only \<^verbatim>\<open>format\<close> can reach them, so \<open>Format\<close> takes them as \<open>spare\<close>, and
  returns the string, the cursor and the spare cells as the call leaves them: the runes
  of \<^verbatim>\<open>c.Input\<close> are those the marker has left in its cells.
\<close>

definition Format :: "rune list \<Rightarrow> Cursor \<Rightarrow> panic + (gostring \<times> Cursor \<times> rune list)" where
  "Format spare c =
     (let r = Input c
      in case format r spare c of
           Inl e \<Rightarrow> Inl e
         | Inr (s, r, spare) \<Rightarrow> Inr (s, c\<lparr>Input := r\<rparr>, spare))"


text \<open>
  \<^verbatim>\<open>Update\<close>: \<^verbatim>\<open>a[:i]\<close> and \<^verbatim>\<open>a[i:]\<close> panic unless \<^verbatim>\<open>0 <= i <= len(a)\<close> (\<^verbatim>\<open>a[:i]\<close>
  alone would accept an \<^verbatim>\<open>i\<close> up to the capacity, \<^verbatim>\<open>a[i:]\<close> does not). The inner
  \<^verbatim>\<open>append\<close> copies the tail before the outer one writes, so the result is the
  concatenation.
\<close>

definition Update :: "gostring \<Rightarrow> Cursor \<Rightarrow> panic + Cursor" where
  "Update newInput c =
     (let a = Input c;
          b = runes_of_string newInput;
          i = Position c
      in if i < 0 \<or> int (length a) < i then Inl SliceBoundsOutOfRange
         else (let a = take (nat i) a @ (b @ drop (nat i) a);
                   c = c\<lparr>Input := a\<rparr>
               in Inr (Move (int (length b)) c)))"

definition Get :: "Cursor \<Rightarrow> gostring" where
  "Get c = (let copy = Input c in string_of_runes copy)"

definition Replace :: "gostring \<Rightarrow> Cursor \<Rightarrow> Cursor" where
  "Replace input c = End (c\<lparr>Input := runes_of_string input\<rparr>)"

text \<open>
  \<^verbatim>\<open>Backspace\<close>: in the last branch \<^verbatim>\<open>a[:i-1]\<close> panics when \<^verbatim>\<open>i-1\<close> is negative and
  \<^verbatim>\<open>a[i:]\<close> when \<^verbatim>\<open>i\<close> exceeds the length.
\<close>

definition Backspace :: "Cursor \<Rightarrow> panic + Cursor" where
  "Backspace c =
     (let a = Input c;
          i = Position c
      in if i = 0 then Inr c
         else if i = int (length a) then
           Inr (Move (- 1) (c\<lparr>Input := take (nat (i - 1)) a\<rparr>))
         else if i - 1 < 0 \<or> int (length a) < i then Inl SliceBoundsOutOfRange
         else Inr (Move (- 1) (c\<lparr>Input := take (nat (i - 1)) a @ drop (nat i) a\<rparr>)))"

text \<open>
  The key codes \<^verbatim>\<open>KeyEnter\<close>, \<^verbatim>\<open>KeyBackspace\<close>, \<^verbatim>\<open>KeyForward\<close> and \<^verbatim>\<open>KeyBackward\<close> are
  package variables declared outside cursor.go; \<open>Listen\<close> takes them as a parameter.
  The \<^verbatim>\<open>switch\<close> compares the key with each case from the top and takes the first that
  is equal. A nil \<^verbatim>\<open>line\<close> is \<open>None\<close>, and \<^verbatim>\<open>string(line)\<close> of a nil slice is empty.
\<close>

record Keys =
  KeyEnter :: rune
  KeyBackspace :: rune
  KeyForward :: rune
  KeyBackward :: rune

definition string_of_line :: "rune list option \<Rightarrow> gostring" where
  "string_of_line line = (case line of None \<Rightarrow> [] | Some l \<Rightarrow> string_of_runes l)"

text \<open>
  \<open>Listen_return\<close> is the statement \<^verbatim>\<open>return []rune(c.Get()), c.Position, continue\<close>:
  the three results, and with them the cursor as the call leaves it.
\<close>

definition Listen_return :: "Cursor \<Rightarrow> bool \<Rightarrow> panic + ((rune list \<times> int \<times> bool) \<times> Cursor)" where
  "Listen_return c continue = Inr ((runes_of_string (Get c), Position c, continue), c)"

definition Listen ::
  "Keys \<Rightarrow> rune list option \<Rightarrow> int \<Rightarrow> rune \<Rightarrow> Cursor
     \<Rightarrow> panic + ((rune list \<times> int \<times> bool) \<times> Cursor)" where
  "Listen ks line pos key c =
     (case (if line \<noteq> None then Update (string_of_line line) c else Inr c) of
        Inl e \<Rightarrow> Inl e
      | Inr c \<Rightarrow>
          if key = 0 then Listen_return c True
          else if key = KeyEnter ks then Listen_return c False
          else if key = KeyBackspace ks then
            (let c = (if erase c then Replace [] (c\<lparr>erase := False\<rparr>) else c)
             in case Backspace c of
                  Inl e \<Rightarrow> Inl e
                | Inr c \<Rightarrow> Listen_return c True)
          else if key = KeyForward ks then
            Listen_return (Move 1 (c\<lparr>erase := False\<rparr>)) True
          else if key = KeyBackward ks then
            Listen_return (Move (- 1) c) True
          else if erase c then
            (case Update (string_of_line line) (c\<lparr>erase := False\<rparr>) of
               Inl e \<Rightarrow> Inl e
             | Inr c \<Rightarrow> Listen_return c True)
          else Listen_return c True)"


section \<open>Notions used to state the properties\<close>

text \<open>
  \<open>ValidRune\<close> is \<^verbatim>\<open>utf8.ValidRune\<close>: the Unicode scalar values. \<open>replace_invalid\<close>
  is what a rune becomes when it goes through \<^verbatim>\<open>string(...)\<close> and back.
\<close>

definition ValidRune :: "rune \<Rightarrow> bool" where
  "ValidRune r = ((0 \<le> r \<and> r < 0xD800) \<or> (0xDFFF < r \<and> r \<le> 0x10FFFF))"

definition replace_invalid :: "rune \<Rightarrow> rune" where
  "replace_invalid r = (if ValidRune r then r else 0xFFFD)"

text \<open>The values of a Go \<^verbatim>\<open>int\<close>; the length of every slice is one of them.\<close>

definition fits_int :: "int \<Rightarrow> bool" where
  "fits_int i = (- (2 ^ 63) \<le> i \<and> i < 2 ^ 63)"

text \<open>The position invariant of the specification.\<close>

definition in_bounds :: "Cursor \<Rightarrow> bool" where
  "in_bounds c = (0 \<le> Position c \<and> Position c \<le> int (length (Input c)))"

text \<open>The keys that reach the \<^verbatim>\<open>default\<close> branch of the switch in \<open>Listen\<close>.\<close>

definition other_key :: "Keys \<Rightarrow> rune \<Rightarrow> bool" where
  "other_key ks key =
     (key \<noteq> 0 \<and> key \<noteq> KeyEnter ks \<and> key \<noteq> KeyBackspace ks
      \<and> key \<noteq> KeyForward ks \<and> key \<noteq> KeyBackward ks)"

text \<open>
  The marker \<^verbatim>\<open>func(in []rune) []rune { return append(in, '|') }\<close>, a function a caller
  can pass to \<open>NewCursor\<close>: \<^verbatim>\<open>append\<close> stores the pipe in the cell after the slice when
  the capacity allows, and in a new array otherwise.
\<close>

definition append_pipe :: Pointer where
  "append_pipe to beyond = (to @ [0x7C], if beyond = [] then [] else to @ [0x7C])"

text \<open>
  A call of one of the exported operations, and a sequence of calls on one cursor; a
  panic ends the sequence.
\<close>

datatype call =
    CallPlace int
  | CallMove int
  | CallStart
  | CallEnd
  | CallUpdate gostring
  | CallReplace gostring
  | CallBackspace
  | CallListen "rune list option" int rune

fun call_on :: "Keys \<Rightarrow> call \<Rightarrow> Cursor \<Rightarrow> panic + Cursor" where
  "call_on ks (CallPlace position) c = Inr (Place position c)"
| "call_on ks (CallMove shift) c = Inr (Move shift c)"
| "call_on ks CallStart c = Inr (Start c)"
| "call_on ks CallEnd c = Inr (End c)"
| "call_on ks (CallUpdate newInput) c = Update newInput c"
| "call_on ks (CallReplace input) c = Inr (Replace input c)"
| "call_on ks CallBackspace c = Backspace c"
| "call_on ks (CallListen line pos key) c =
     (case Listen ks line pos key c of Inl e \<Rightarrow> Inl e | Inr (ret, c') \<Rightarrow> Inr c')"

fun calls_on :: "Keys \<Rightarrow> call list \<Rightarrow> Cursor \<Rightarrow> panic + Cursor" where
  "calls_on ks [] c = Inr c"
| "calls_on ks (x # xs) c =
     (case call_on ks x c of Inl e \<Rightarrow> Inl e | Inr c' \<Rightarrow> calls_on ks xs c')"

section \<open>UTF-8: decoding what was encoded\<close>

text \<open>
  \<open>runes_of_string\<close> on a well-formed sequence of two, three or four bytes, and the
  arithmetic of the six-bit digits that \<open>encoderune\<close> writes.
\<close>

lemma decode2:
  assumes "192 \<le> s0" "s0 < 224" "locb_hicb s1"
    and "r = s0 mod 32 * 64 + s1 mod 64" "127 < r"
  shows "runes_of_string (s0 # s1 # s) = int r # runes_of_string s"
  using assms by (simp add: Let_def)

lemma decode3:
  assumes "224 \<le> s0" "s0 < 240" "locb_hicb s1" "locb_hicb s2"
    and "r = s0 mod 16 * 4096 + s1 mod 64 * 64 + s2 mod 64"
    and "2047 < r" "r < 55296 \<or> 57343 < r"
  shows "runes_of_string (s0 # s1 # s2 # s) = int r # runes_of_string s"
  using assms by (auto simp add: Let_def)

lemma decode4:
  assumes "240 \<le> s0" "s0 < 248" "locb_hicb s1" "locb_hicb s2" "locb_hicb s3"
    and "r = s0 mod 8 * 262144 + s1 mod 64 * 4096 + s2 mod 64 * 64 + s3 mod 64"
    and "65535 < r" "r \<le> 1114111"
  shows "runes_of_string (s0 # s1 # s2 # s3 # s) = int r # runes_of_string s"
  using assms by (auto simp add: Let_def)

lemma digits3: "n div 4096 * 4096 + n div 64 mod 64 * 64 + n mod 64 = (n::nat)"
proof -
  define q where "q = n div 64"
  have a: "n div 4096 = q div 64"
    by (simp add: div_mult2_eq q_def)
  have f: "(x * 64 + y) * 64 = x * 4096 + y * 64" for x y :: nat
    by simp
  have "q div 64 * 4096 + q mod 64 * 64 = (q div 64 * 64 + q mod 64) * 64"
    by (rule f [symmetric])
  also have "\<dots> = q * 64"
    by (simp only: div_mult_mod_eq)
  finally have "n div 4096 * 4096 + n div 64 mod 64 * 64 + n mod 64 = n div 64 * 64 + n mod 64"
    by (simp only: a q_def)
  then show ?thesis
    by (simp only: div_mult_mod_eq)
qed

lemma digits4:
  "n div 262144 * 262144 + n div 4096 mod 64 * 4096 + n div 64 mod 64 * 64 + n mod 64 = (n::nat)"
proof -
  define q where "q = n div 64"
  define p where "p = q div 64"
  have a: "n div 4096 = p" "n div 262144 = p div 64"
    by (simp_all add: div_mult2_eq q_def p_def)
  have f: "((x * 64 + y) * 64 + z) * 64 = x * 262144 + y * 4096 + z * 64" for x y z :: nat
    by simp
  have "p div 64 * 262144 + p mod 64 * 4096 + q mod 64 * 64
          = ((p div 64 * 64 + p mod 64) * 64 + q mod 64) * 64"
    by (rule f [symmetric])
  also have "\<dots> = (p * 64 + q mod 64) * 64"
    by (simp only: div_mult_mod_eq)
  also have "\<dots> = q * 64"
    by (simp only: p_def div_mult_mod_eq)
  finally have "n div 262144 * 262144 + n div 4096 mod 64 * 4096 + n div 64 mod 64 * 64 + n mod 64
                  = n div 64 * 64 + n mod 64"
    by (simp only: a q_def)
  then show ?thesis
    by (simp only: div_mult_mod_eq)
qed

lemma mod32_lead: "a < 32 \<Longrightarrow> (192 + a) mod 32 = (a::nat)"
  using mod_mult_self3 [of 6 32 a] by simp

lemma mod16_lead: "a < 16 \<Longrightarrow> (224 + a) mod 16 = (a::nat)"
  using mod_mult_self3 [of 14 16 a] by simp

lemma mod8_lead: "a < 8 \<Longrightarrow> (240 + a) mod 8 = (a::nat)"
  using mod_mult_self3 [of 30 8 a] by simp

lemma mod64_cont: "(128 + m mod 64) mod 64 = (m::nat) mod 64"
  using mod_mult_self3 [of 2 64 "m mod 64"] by simp

lemma locb_hicb_cont: "locb_hicb (128 + m mod 64)"
  by (simp add: locb_hicb_def)

lemma decode_encode2:
  assumes "127 < n" "n \<le> 2047"
  shows "runes_of_string ((192 + n div 64) # (128 + n mod 64) # s) = int n # runes_of_string s"
proof (rule decode2)
  have q: "n div 64 < 32" using assms by simp
  show "192 + n div 64 < 224" using q by simp
  show "n = (192 + n div 64) mod 32 * 64 + (128 + n mod 64) mod 64"
    by (simp only: mod32_lead [OF q] mod64_cont div_mult_mod_eq)
qed (use assms in \<open>simp_all add: locb_hicb_cont\<close>)

lemma decode_encode3:
  assumes "2047 < n" "n \<le> 65535" "n < 55296 \<or> 57343 < n"
  shows "runes_of_string ((224 + n div 4096) # (128 + n div 64 mod 64) # (128 + n mod 64) # s)
           = int n # runes_of_string s"
proof (rule decode3)
  have q: "n div 4096 < 16" using assms by simp
  show "224 + n div 4096 < 240" using q by simp
  show "n = (224 + n div 4096) mod 16 * 4096 + (128 + n div 64 mod 64) mod 64 * 64
              + (128 + n mod 64) mod 64"
    by (simp only: mod16_lead [OF q] mod64_cont mod_mod_trivial digits3)
qed (use assms in \<open>simp_all add: locb_hicb_cont\<close>)

lemma decode_encode4:
  assumes "65535 < n" "n \<le> 1114111"
  shows "runes_of_string ((240 + n div 262144) # (128 + n div 4096 mod 64)
                          # (128 + n div 64 mod 64) # (128 + n mod 64) # s)
           = int n # runes_of_string s"
proof (rule decode4)
  have q: "n div 262144 < 8" using assms by simp
  show "240 + n div 262144 < 248" using q by simp
  show "n = (240 + n div 262144) mod 8 * 262144 + (128 + n div 4096 mod 64) mod 64 * 4096
              + (128 + n div 64 mod 64) mod 64 * 64 + (128 + n mod 64) mod 64"
    by (simp only: mod8_lead [OF q] mod64_cont mod_mod_trivial digits4)
qed (use assms in \<open>simp_all add: locb_hicb_cont\<close>)

text \<open>
  Decoding the encoding of a rune gives the rune back when it is a Unicode scalar value,
  and U+FFFD otherwise.
\<close>

lemma runes_of_encoderune:
  "runes_of_string (encoderune r @ s) = replace_invalid r # runes_of_string s"
proof -
  consider (a) "0 \<le> r" "r \<le> 127" | (b) "127 < r" "r \<le> 2047"
    | (c) "r < 0 \<or> 1114111 < r \<or> (55296 \<le> r \<and> r \<le> 57343)"
    | (d) "2047 < r" "r \<le> 65535" "r < 55296 \<or> 57343 < r"
    | (e) "65535 < r" "r \<le> 1114111"
    by linarith
  then show ?thesis
  proof cases
    case a
    then show ?thesis by (simp add: encoderune_def replace_invalid_def ValidRune_def)
  next
    case b
    then have n: "127 < nat r" "nat r \<le> 2047" "int (nat r) = r" by simp_all
    have "encoderune r = [192 + nat r div 64, 128 + nat r mod 64]"
      using b by (simp add: encoderune_def)
    moreover have "replace_invalid r = r"
      using b by (simp add: replace_invalid_def ValidRune_def)
    ultimately show ?thesis using decode_encode2 [OF n(1,2), of s] n(3) by simp
  next
    case c
    then have "encoderune r = [239, 191, 189]" by (auto simp add: encoderune_def)
    moreover have "replace_invalid r = 65533"
      using c by (auto simp add: replace_invalid_def ValidRune_def)
    ultimately show ?thesis by (simp add: locb_hicb_def)
  next
    case d
    then have n: "2047 < nat r" "nat r \<le> 65535" "nat r < 55296 \<or> 57343 < nat r"
      "int (nat r) = r"
      by auto
    have "encoderune r = [224 + nat r div 4096, 128 + nat r div 64 mod 64, 128 + nat r mod 64]"
      using d by (auto simp add: encoderune_def)
    moreover have "replace_invalid r = r"
      using d by (auto simp add: replace_invalid_def ValidRune_def)
    ultimately show ?thesis using decode_encode3 [OF n(1,2,3), of s] n(4) by simp
  next
    case e
    then have n: "65535 < nat r" "nat r \<le> 1114111" "int (nat r) = r" by auto
    have "encoderune r = [240 + nat r div 262144, 128 + nat r div 4096 mod 64,
                          128 + nat r div 64 mod 64, 128 + nat r mod 64]"
      using e by (auto simp add: encoderune_def)
    moreover have "replace_invalid r = r"
      using e by (auto simp add: replace_invalid_def ValidRune_def)
    ultimately show ?thesis using decode_encode4 [OF n(1,2), of s] n(3) by simp
  qed
qed

lemma runes_of_string_of_runes_append:
  "runes_of_string (string_of_runes rs @ s) = map replace_invalid rs @ runes_of_string s"
  by (induction rs) (simp_all add: string_of_runes_def runes_of_encoderune)

lemma runes_of_string_of_runes:
  "runes_of_string (string_of_runes rs) = map replace_invalid rs"
  using runes_of_string_of_runes_append [of rs "[]"] by simp

lemma map_replace_invalid_valid:
  "list_all ValidRune rs \<Longrightarrow> map replace_invalid rs = rs"
  by (induction rs) (simp_all add: replace_invalid_def)

section \<open>The position invariant\<close>

lemma int64_fits: "fits_int i \<Longrightarrow> int64 i = i"
  by (simp add: int64_def fits_int_def)

lemma correctPosition_in_bounds: "in_bounds (correctPosition c)"
  by (simp add: correctPosition_def in_bounds_def Let_def)

lemma correctPosition_fields [simp]:
  "Input (correctPosition c) = Input c" "erase (correctPosition c) = erase c"
  "Cursor (correctPosition c) = Cursor c"
  by (simp_all add: correctPosition_def Let_def)

lemma correctPosition_id: "in_bounds c \<Longrightarrow> correctPosition c = c"
  by (simp add: correctPosition_def in_bounds_def Let_def)

lemma Place_in_bounds: "in_bounds (Place n c)"
  by (simp add: Place_def correctPosition_in_bounds)

lemma Move_in_bounds: "in_bounds (Move n c)"
  by (simp add: Move_def correctPosition_in_bounds)

lemma Place_fields [simp]:
  "Input (Place n c) = Input c" "erase (Place n c) = erase c" "Cursor (Place n c) = Cursor c"
  by (simp_all add: Place_def)

lemma Move_fields [simp]:
  "Input (Move n c) = Input c" "erase (Move n c) = erase c" "Cursor (Move n c) = Cursor c"
  by (simp_all add: Move_def)

lemma Start_in_bounds: "in_bounds (Start c)"
  by (simp add: Start_def Place_in_bounds)

lemma End_in_bounds: "in_bounds (End c)"
  by (simp add: End_def Place_in_bounds)

lemma Replace_in_bounds: "in_bounds (Replace s c)"
  by (simp add: Replace_def End_in_bounds)

lemma NewCursor_in_bounds: "in_bounds (NewCursor s p e)"
  by (simp add: NewCursor_def Let_def Start_in_bounds End_in_bounds)

lemma Update_in_bounds:
  "in_bounds c \<Longrightarrow> \<exists>c'. Update t c = Inr c' \<and> in_bounds c' \<and> erase c' = erase c"
  by (auto simp add: Update_def Let_def in_bounds_def [of c] Move_in_bounds)

lemma Backspace_in_bounds:
  "in_bounds c \<Longrightarrow> \<exists>c'. Backspace c = Inr c' \<and> in_bounds c' \<and> erase c' = erase c"
  by (auto simp add: Backspace_def Let_def in_bounds_def [of c] Move_in_bounds)

lemma Listen_in_bounds:
  assumes "in_bounds c"
  shows "\<exists>ret c'. Listen ks line pos key c = Inr (ret, c') \<and> in_bounds c'"
proof -
  obtain c1 where c1: "(if line \<noteq> None then Update (string_of_line line) c else Inr c) = Inr c1"
    "in_bounds c1"
    using assms Update_in_bounds [OF assms, of "string_of_line line"] by (cases line) auto
  have "in_bounds (if erase c1 then Replace [] (c1\<lparr>erase := False\<rparr>) else c1)"
    by (simp add: c1(2) Replace_in_bounds)
  from Backspace_in_bounds [OF this]
  obtain c2 where c2: "Backspace (if erase c1 then Replace [] (c1\<lparr>erase := False\<rparr>) else c1) = Inr c2"
    "in_bounds c2"
    by blast
  have b: "in_bounds (c1\<lparr>erase := False\<rparr>)" using c1(2) by (simp add: in_bounds_def)
  obtain c3 where c3: "Update (string_of_line line) (c1\<lparr>erase := False\<rparr>) = Inr c3" "in_bounds c3"
    using Update_in_bounds [OF b] by blast
  show ?thesis
    unfolding Listen_def c1(1) 
    by (auto simp add: Listen_return_def Let_def c2 c3 c1(2) Move_in_bounds)
qed


text \<open>What a request out of range becomes.\<close>

lemma Place_clamps: "Place position c = c\<lparr>Position := max 0 (min position (int (length (Input c))))\<rparr>"
  by (simp add: Place_def correctPosition_def Let_def max_def min_def)

lemma Move_clamps:
  "Move shift c = c\<lparr>Position := max 0 (min (int64 (Position c + shift)) (int (length (Input c))))\<rparr>"
  by (simp add: Move_def correctPosition_def Let_def max_def min_def)

lemma Start_result: "Start c = c\<lparr>Position := 0\<rparr>"
  by (simp add: Start_def Place_clamps)

lemma End_result: "End c = c\<lparr>Position := int (length (Input c))\<rparr>"
  by (simp add: End_def Place_clamps)

lemma Replace_result:
  "Replace input c = c\<lparr>Input := runes_of_string input,
                         Position := int (length (runes_of_string input))\<rparr>"
  by (simp add: Replace_def End_result)

lemma NewCursor_result:
  "NewCursor startingInput pointer eraseDefault =
     \<lparr>Cursor = (case pointer of None \<Rightarrow> Some (reads_only defaultCursor) | Some p \<Rightarrow> Some p),
      Input = runes_of_string startingInput,
      Position = (if eraseDefault then 0 else int (length (runes_of_string startingInput))),
      erase = eraseDefault\<rparr>"
  by (simp add: NewCursor_def Let_def Start_result End_result)

section \<open>What the operations compute\<close>

lemma take1_drop: "n < length xs \<Longrightarrow> take (Suc 0) (drop n xs) = [xs ! n]"
  by (metis Cons_nth_drop_Suc take0 take_Suc_Cons)


lemma length_overwrite: "length (overwrite written cells) = length cells"
  by (simp add: overwrite_def)

lemma overwrite_Nil: "overwrite [] cells = cells"
  by (simp add: overwrite_def)

lemma format_reads_only:
  assumes "0 \<le> Position c" and "Cursor c = Some (reads_only f)"
  shows "format a spare c = Inr (string_of_runes
           (if Position c < int (length a)
            then take (nat (Position c)) a @ f [a ! nat (Position c)]
                 @ drop (nat (Position c) + 1) a
            else a @ f []), a, spare)"
proof (cases "Position c < int (length a)")
  case True
  then have n: "nat (Position c) < length a" using assms(1) by simp
  then have t: "take (Suc 0) (drop (nat (Position c)) a) = [a ! nat (Position c)]"
    by (rule take1_drop)
  have l: "nat (Position c) \<le> length a" using n by simp
  show ?thesis
    using True assms t l
    by (simp add: format_def Let_def reads_only_def overwrite_Nil)
next
  case False
  then show ?thesis using assms by (simp add: format_def Let_def reads_only_def)
qed

lemma Format_reads_only:
  assumes "in_bounds c" and "Cursor c = Some (reads_only f)"
  shows "Format spare c = Inr (string_of_runes
           (if Position c < int (length (Input c))
            then take (nat (Position c)) (Input c) @ f [Input c ! nat (Position c)]
                 @ drop (nat (Position c) + 1) (Input c)
            else Input c @ f []), c, spare)"
proof -
  have "0 \<le> Position c" using assms(1) by (simp add: in_bounds_def)
  from format_reads_only [OF this assms(2), of "Input c" spare]
  show ?thesis by (simp add: Format_def split: if_splits)
qed



lemma Move_exact:
  assumes "fits_int (Position c + n)" "0 \<le> Position c + n" 
    "Position c + n \<le> int (length (Input c))"
  shows "Move n c = c\<lparr>Position := Position c + n\<rparr>"
  using assms by (simp add: Move_def int64_fits correctPosition_def Let_def)

lemma Backspace_result:
  assumes "in_bounds c" and "fits_int (Position c)"
  shows "Backspace c =
           Inr (if Position c = 0 then c
                else c\<lparr>Input := take (nat (Position c) - 1) (Input c) @ drop (nat (Position c)) (Input c),
                       Position := Position c - 1\<rparr>)"
proof (cases "Position c = 0")
  case True
  then show ?thesis by (simp add: Backspace_def)
next
  case False
  then have p: "0 < Position c" "Position c \<le> int (length (Input c))"
    using assms(1) by (simp_all add: in_bounds_def)
  define a' where "a' = take (nat (Position c) - 1) (Input c) @ drop (nat (Position c)) (Input c)"
  have n: "nat (Position c - 1) = nat (Position c) - 1" by (simp add: nat_diff_distrib')
  have len: "int (length a') = int (length (Input c)) - 1"
    using p by (simp add: a'_def)
  have f: "fits_int (Position (c\<lparr>Input := a'\<rparr>) + (- 1))" using assms(2) p by (simp add: fits_int_def)
  have m: "Move (- 1) (c\<lparr>Input := a'\<rparr>) = c\<lparr>Input := a', Position := Position c - 1\<rparr>"
    using Move_exact [OF f] p len by simp
  have "Backspace c = Inr (Move (- 1) (c\<lparr>Input := a'\<rparr>))"
  proof (cases "Position c = int (length (Input c))")
    case True
    then have "length (Input c) \<le> nat (Position c)" by simp
    then have "drop (nat (Position c)) (Input c) = []" by (rule drop_all)
    then have "take (nat (Position c - 1)) (Input c) = a'" by (simp only: a'_def n append_Nil2)
    moreover have "Backspace c = Inr (Move (- 1) (c\<lparr>Input := take (nat (Position c - 1)) (Input c)\<rparr>))"
      using False True by (simp add: Backspace_def Let_def)
    ultimately show ?thesis by (simp only:)
  next
    case e: False
    have "take (nat (Position c - 1)) (Input c) @ drop (nat (Position c)) (Input c) = a'"
      by (simp only: a'_def n)
    moreover have "Backspace c = Inr (Move (- 1) (c\<lparr>Input := take (nat (Position c - 1)) (Input c)
                                                       @ drop (nat (Position c)) (Input c)\<rparr>))"
      using False e p by (simp add: Backspace_def Let_def)
    ultimately show ?thesis by (simp only:)
  qed
  then show ?thesis using False m by (simp add: a'_def)
qed

lemma Update_result:
  assumes "in_bounds c"
    and "fits_int (int (length (Input c)) + int (length (runes_of_string t)))"
  shows "Update t c = Inr (c\<lparr>Input := take (nat (Position c)) (Input c) @ runes_of_string t
                                      @ drop (nat (Position c)) (Input c),
                             Position := Position c + int (length (runes_of_string t))\<rparr>)"
proof -
  define b where "b = runes_of_string t"
  define c1 where
    "c1 = c\<lparr>Input := take (nat (Position c)) (Input c) @ (b @ drop (nat (Position c)) (Input c))\<rparr>"
  have p: "0 \<le> Position c" "Position c \<le> int (length (Input c))"
    using assms(1) by (simp_all add: in_bounds_def)
  have len: "int (length (Input c1)) = int (length (Input c)) + int (length b)"
    using p by (simp add: c1_def)
  have pos: "Position c1 = Position c" by (simp add: c1_def)
  have f: "fits_int (Position c1 + int (length b))"
    using assms(2) p by (simp add: fits_int_def b_def pos)
  have "Move (int (length b)) c1 = c1\<lparr>Position := Position c1 + int (length b)\<rparr>"
    using f p by (intro Move_exact) (simp_all add: len pos)
  moreover have "Update t c = Inr (Move (int (length b)) c1)"
    using p by (simp add: Update_def Let_def b_def c1_def)
  ultimately show ?thesis by (simp add: c1_def b_def)
qed

lemma call_on_in_bounds:
  assumes "in_bounds c"
  shows "\<exists>c'. call_on ks x c = Inr c' \<and> in_bounds c'"
proof (cases x)
  case (CallUpdate t)
  then show ?thesis using Update_in_bounds [OF assms, of t] by auto
next
  case CallBackspace
  then show ?thesis using Backspace_in_bounds [OF assms] by auto
next
  case (CallListen line pos key)
  then show ?thesis using Listen_in_bounds [OF assms, of ks line pos key] by auto
qed (simp_all add: Place_in_bounds Move_in_bounds Start_in_bounds End_in_bounds Replace_in_bounds)

lemma calls_on_in_bounds:
  "in_bounds c \<Longrightarrow> \<exists>c'. calls_on ks xs c = Inr c' \<and> in_bounds c'"
proof (induction xs arbitrary: c)
  case Nil
  then show ?case by simp
next
  case (Cons x xs)
  from call_on_in_bounds [OF Cons.prems, of ks x]
  obtain c1 where c1: "call_on ks x c = Inr c1" "in_bounds c1" by blast
  from Cons.IH [OF c1(2)] show ?case by (simp add: c1(1))
qed

lemma string_of_runes_append:
  "string_of_runes (xs @ ys) = string_of_runes xs @ string_of_runes ys"
  by (simp add: string_of_runes_def)

lemma Backspace_then_Update:
  assumes p: "0 < Position c" "Position c \<le> int (length (Input c))"
    and f: "fits_int (int (length (Input c)))"
    and s: "runes_of_string s = [Input c ! (nat (Position c) - 1)]"
  shows "\<exists>c1. Backspace c = Inr c1 \<and> Update s c1 = Inr c"
proof -
  define n where "n = nat (Position c) - 1"
  define c1 where
    "c1 = c\<lparr>Input := take (nat (Position c) - 1) (Input c) @ drop (nat (Position c)) (Input c),
             Position := Position c - 1\<rparr>"
  have pn: "nat (Position c) = Suc n" "Position c = int n + 1"
    using p by (simp_all add: n_def)
  have nl: "n < length (Input c)" using p pn by simp
  have s': "runes_of_string s = [Input c ! n]" using s by (simp only: n_def)
  have i1: "Input c1 = take n (Input c) @ drop (Suc n) (Input c)"
    by (simp add: c1_def pn(1))
  have p1: "Position c1 = int n" by (simp add: c1_def pn(2))
  have "in_bounds c" using p by (simp add: in_bounds_def)
  moreover have "fits_int (Position c)" using p f by (simp add: fits_int_def)
  moreover have "Position c \<noteq> 0" using p by simp
  ultimately have b: "Backspace c = Inr c1"
    using Backspace_result [of c] by (simp only: c1_def if_False)
  have ib: "in_bounds c1" using nl by (simp add: in_bounds_def i1 p1)
  have "int (length (Input c1)) + int (length (runes_of_string s)) = int (length (Input c))"
    using nl by (simp add: i1 s')
  then have f1: "fits_int (int (length (Input c1)) + int (length (runes_of_string s)))"
    using f by simp
  have t: "take n (Input c1) = take n (Input c)" using nl by (simp add: i1)
  have d: "drop n (Input c1) = drop (Suc n) (Input c)" using nl by (simp add: i1)
  have w: "take n (Input c) @ [Input c ! n] @ drop (Suc n) (Input c) = Input c"
    using nl by (simp add: id_take_nth_drop [symmetric])
  have "Update s c1 = Inr (c1\<lparr>Input := take n (Input c1) @ [Input c ! n] @ drop n (Input c1),
                               Position := int n + 1\<rparr>)"
    using Update_result [OF ib f1] by (simp add: s' p1)
  also have "c1\<lparr>Input := take n (Input c1) @ [Input c ! n] @ drop n (Input c1),
                Position := int n + 1\<rparr> = c"
    by (simp only: t d w) (simp add: c1_def pn(2))
  finally show ?thesis using b by blast
qed

section \<open>The key listener\<close>

lemma Listen_enter:
  assumes "key = KeyEnter ks" "key \<noteq> 0"
  shows "Listen ks line pos key c =
           (case (if line \<noteq> None then Update (string_of_line line) c else Inr c) of
              Inl e \<Rightarrow> Inl e
            | Inr c' \<Rightarrow> Inr ((map replace_invalid (Input c'), Position c', False), c'))"
  using assms
  by (simp add: Listen_def Listen_return_def Get_def runes_of_string_of_runes split: sum.splits)

lemma Update_erase: "Update t c = Inr c' \<Longrightarrow> erase c' = erase c"
  by (auto simp add: Update_def Let_def split: if_splits)

lemma Backspace_erase: "Backspace c = Inr c' \<Longrightarrow> erase c' = erase c"
  by (auto simp add: Backspace_def Let_def split: if_splits)

lemma Replace_erase: "erase (Replace s c) = erase c"
  by (simp add: Replace_def End_def)

lemma Listen_erase:
  assumes "Listen ks line pos key c = Inr (ret, c')"
  shows "erase c' = (erase c \<and> (key = 0 \<or> key = KeyEnter ks \<or>
           (key = KeyBackward ks \<and> key \<noteq> KeyBackspace ks \<and> key \<noteq> KeyForward ks)))"
proof -
  obtain c1 where c1: "(if line \<noteq> None then Update (string_of_line line) c else Inr c) = Inr c1"
    using assms by (auto simp add: Listen_def split: sum.splits)
  have e1: "erase c1 = erase c" using c1 Update_erase by (auto split: if_splits)
  show ?thesis
    using assms e1 unfolding Listen_def c1
    by (auto simp add: Listen_return_def Let_def Replace_erase
        dest!: Update_erase Backspace_erase split: if_splits sum.splits)
qed

lemma call_on_erase: "call_on ks x c = Inr c' \<Longrightarrow> erase c' \<Longrightarrow> erase c"
proof (cases x)
  case (CallListen line pos key)
  assume "call_on ks x c = Inr c'" "erase c'"
  then show ?thesis using CallListen Listen_erase [of ks line pos key c]
    by (auto split: sum.splits)
qed (auto simp add: Start_def End_def Replace_erase dest: Update_erase Backspace_erase)

lemma calls_on_erase: "calls_on ks xs c = Inr c' \<Longrightarrow> erase c' \<Longrightarrow> erase c"
proof (induction xs arbitrary: c)
  case Nil
  then show ?case by simp
next
  case (Cons x xs)
  then obtain c1 where c1: "call_on ks x c = Inr c1" "calls_on ks xs c1 = Inr c'"
    by (auto split: sum.splits)
  from Cons.IH [OF c1(2) Cons.prems(2)] have "erase c1" .
  with c1(1) show ?case by (rule call_on_erase)
qed

section \<open>What the marker strategies return\<close>

lemma defaultCursor_result: "defaultCursor r = [0x2588]"
  by (simp add: defaultCursor_def locb_hicb_def)

lemma pipeCursor_result: "pipeCursor r = 0x7C # r"
  by (simp add: pipeCursor_def lit_def)

lemma blockCursor_result:
  "blockCursor r = [0x5C, 0x65, 0x5B, 0x37, 0x6D] @ map replace_invalid r
                   @ [0x5C, 0x65, 0x5B, 0x30, 0x6D]"
proof -
  have "runes_of_string (string_of_runes r @ [0x5C, 0x65, 0x5B, 0x30, 0x6D])
          = map replace_invalid r @ [0x5C, 0x65, 0x5B, 0x30, 0x6D]"
    by (simp add: runes_of_string_of_runes_append)
  then show ?thesis by (simp add: blockCursor_def)
qed

section \<open>The properties of the specification\<close>

text \<open>
  \<^bold>\<open>C1.\<close> The first key on a placeholder. \<open>NewCursor\<close> on "yes" with
  \<^verbatim>\<open>eraseDefault\<close> set gives position 0 and the erase flag. The specification expects the
  first \<open>Listen\<close> call with a key of the default branch and the line "n" to clear the
  placeholder and return the buffer "n" at position 1. The code inserts the line once
  before the switch and once more in the default branch, and never removes the
  placeholder (the branch of \<^verbatim>\<open>KeyBackspace\<close> calls \<^verbatim>\<open>c.Replace("")\<close>, this one does not):
  it returns the buffer "nnyes", position 2 and \<open>True\<close>.
\<close>

theorem Listen_other_key_keeps_placeholder:
  "NewCursor (lit ''yes'') pointer True
     = \<lparr>Cursor = (case pointer of None \<Rightarrow> Some (reads_only defaultCursor)
                                    | Some p \<Rightarrow> Some p),
        Input = runes_of_string (lit ''yes''), Position = 0, erase = True\<rparr> \<and>
   (other_key ks 0x6E \<longrightarrow>
      Listen ks (Some (runes_of_string (lit ''n''))) pos 0x6E (NewCursor (lit ''yes'') pointer True)
        = Inr ((runes_of_string (lit ''nnyes''), 2, True),
               \<lparr>Cursor = (case pointer of None \<Rightarrow> Some (reads_only defaultCursor)
                                    | Some p \<Rightarrow> Some p),
                Input = runes_of_string (lit ''nnyes''), Position = 2, erase = False\<rparr>))"
  by (simp add: NewCursor_def Start_def Place_def correctPosition_def Listen_def Update_def
      Move_def int64_def Listen_return_def Get_def string_of_line_def string_of_runes_def
      encoderune_def lit_def other_key_def Let_def)

theorem Listen_other_key_keeps_placeholder_witness:
  "other_key \<lparr>KeyEnter = 13, KeyBackspace = 127, KeyForward = 6, KeyBackward = 2\<rparr> 0x6E \<and>
   Listen \<lparr>KeyEnter = 13, KeyBackspace = 127, KeyForward = 6, KeyBackward = 2\<rparr>
       (Some [0x6E]) 1 0x6E (NewCursor (lit ''yes'') None True)
     = Inr (([0x6E, 0x6E, 0x79, 0x65, 0x73], 2, True),
            \<lparr>Cursor = Some (reads_only defaultCursor), Input = [0x6E, 0x6E, 0x79, 0x65, 0x73],
             Position = 2, erase = False\<rparr>)"
proof -
  have h: "other_key \<lparr>KeyEnter = 13, KeyBackspace = 127, KeyForward = 6, KeyBackward = 2\<rparr> 0x6E"
    by (simp add: other_key_def)
  show ?thesis
    using h Listen_other_key_keeps_placeholder [where pointer = None and pos = 1
        and ks = "\<lparr>KeyEnter = 13, KeyBackspace = 127, KeyForward = 6, KeyBackward = 2\<rparr>",
        THEN conjunct2]
    by (simp add: lit_def)
qed

text \<open>
  \<^bold>\<open>C2.\<close> The position stays in bounds, and a request out of range is clamped. A cursor
  built by \<open>NewCursor\<close> satisfies \<open>0 \<le> Position \<le> length Input\<close>, at 0 with
  \<^verbatim>\<open>eraseDefault\<close> and at the end without. \<open>Place\<close> changes nothing but the position,
  which becomes the requested one when that is in range, 0 when it is negative and the
  length of the buffer when it is beyond; \<open>Move\<close> does the same with the sum of the
  position and the shift (a Go \<^verbatim>\<open>int\<close>, so the sum wraps at 64 bits); \<open>Start\<close> and \<open>End\<close>
  go to 0 and to the length, \<open>Replace\<close> to the end of the new buffer. From any cursor in
  bounds every sequence of calls of \<open>Place\<close>, \<open>Move\<close>, \<open>Start\<close>, \<open>End\<close>, \<open>Update\<close>,
  \<open>Replace\<close>, \<open>Backspace\<close> and \<open>Listen\<close>, with any arguments, runs to the end without
  a panic and yields a cursor in bounds: no request is rejected.
\<close>

theorem Position_always_in_bounds:
  "in_bounds (NewCursor startingInput pointer eraseDefault) \<and>
   Position (NewCursor startingInput pointer eraseDefault)
     = (if eraseDefault then 0 else int (length (runes_of_string startingInput))) \<and>
   Place position c = c\<lparr>Position := max 0 (min position (int (length (Input c))))\<rparr> \<and>
   Move shift c
     = c\<lparr>Position := max 0 (min (int64 (Position c + shift)) (int (length (Input c))))\<rparr> \<and>
   Start c = c\<lparr>Position := 0\<rparr> \<and>
   End c = c\<lparr>Position := int (length (Input c))\<rparr> \<and>
   Replace input c = c\<lparr>Input := runes_of_string input,
                          Position := int (length (runes_of_string input))\<rparr> \<and>
   (in_bounds c \<longrightarrow> (\<exists>c'. calls_on ks xs c = Inr c' \<and> in_bounds c'))"
proof (intro conjI impI)
  show "Position (NewCursor startingInput pointer eraseDefault)
     = (if eraseDefault then 0 else int (length (runes_of_string startingInput)))"
    by (simp add: NewCursor_result)
qed (simp_all only: NewCursor_in_bounds Place_clamps Move_clamps Start_result End_result
    Replace_result calls_on_in_bounds)

theorem Position_always_in_bounds_witness:
  "in_bounds \<lparr>Cursor = None, Input = [0x79, 0x65, 0x73], Position = 3, erase = True\<rparr> \<and>
   (\<exists>c'. calls_on \<lparr>KeyEnter = 13, KeyBackspace = 127, KeyForward = 6, KeyBackward = 2\<rparr>
            [CallPlace 7, CallMove (- 9), CallUpdate [0x68, 0x69], CallBackspace,
             CallListen (Some [0x6E]) 1 0x6E, CallListen None 0 127, CallReplace [0x6F],
             CallStart, CallEnd]
            \<lparr>Cursor = None, Input = [0x79, 0x65, 0x73], Position = 3, erase = True\<rparr>
          = Inr c' \<and> in_bounds c') \<and>
   Place 7 \<lparr>Cursor = None, Input = [0x79, 0x65, 0x73], Position = 1, erase = True\<rparr>
     = \<lparr>Cursor = None, Input = [0x79, 0x65, 0x73], Position = 3, erase = True\<rparr> \<and>
   Place (- 2) \<lparr>Cursor = None, Input = [0x79, 0x65, 0x73], Position = 1, erase = True\<rparr>
     = \<lparr>Cursor = None, Input = [0x79, 0x65, 0x73], Position = 0, erase = True\<rparr> \<and>
   Move (- 9) \<lparr>Cursor = None, Input = [0x79, 0x65, 0x73], Position = 1, erase = True\<rparr>
     = \<lparr>Cursor = None, Input = [0x79, 0x65, 0x73], Position = 0, erase = True\<rparr> \<and>
   Move 1 \<lparr>Cursor = None, Input = [0x79, 0x65, 0x73], Position = 1, erase = True\<rparr>
     = \<lparr>Cursor = None, Input = [0x79, 0x65, 0x73], Position = 2, erase = True\<rparr>"
proof -
  have h: "in_bounds \<lparr>Cursor = None, Input = [0x79, 0x65, 0x73], Position = 3, erase = True\<rparr>"
    by (simp add: in_bounds_def)
  note t = Position_always_in_bounds [where
      ks = "\<lparr>KeyEnter = 13, KeyBackspace = 127, KeyForward = 6, KeyBackward = 2\<rparr>"
      and xs = "[CallPlace 7, CallMove (- 9), CallUpdate [0x68, 0x69], CallBackspace,
          CallListen (Some [0x6E]) 1 0x6E, CallListen None 0 127, CallReplace [0x6F],
          CallStart, CallEnd]"
      and startingInput = "[]" and pointer = None and eraseDefault = True and input = "[]"]
  have r: "\<exists>c'. calls_on \<lparr>KeyEnter = 13, KeyBackspace = 127, KeyForward = 6, KeyBackward = 2\<rparr>
            [CallPlace 7, CallMove (- 9), CallUpdate [0x68, 0x69], CallBackspace,
             CallListen (Some [0x6E]) 1 0x6E, CallListen None 0 127, CallReplace [0x6F],
             CallStart, CallEnd]
            \<lparr>Cursor = None, Input = [0x79, 0x65, 0x73], Position = 3, erase = True\<rparr>
          = Inr c' \<and> in_bounds c'"
    using h t [where c = "\<lparr>Cursor = None, Input = [0x79, 0x65, 0x73], Position = 3, erase = True\<rparr>"
        and position = 0 and shift = 0]
    by blast
  have p7: "Place 7 \<lparr>Cursor = None, Input = [0x79, 0x65, 0x73], Position = 1, erase = True\<rparr>
     = \<lparr>Cursor = None, Input = [0x79, 0x65, 0x73], Position = 3, erase = True\<rparr>"
    using t [where c = "\<lparr>Cursor = None, Input = [0x79, 0x65, 0x73], Position = 1, erase = True\<rparr>"
        and position = 7 and shift = 0, THEN conjunct2, THEN conjunct2, THEN conjunct1]
    by simp
  have p2: "Place (- 2) \<lparr>Cursor = None, Input = [0x79, 0x65, 0x73], Position = 1, erase = True\<rparr>
     = \<lparr>Cursor = None, Input = [0x79, 0x65, 0x73], Position = 0, erase = True\<rparr>"
    using t [where c = "\<lparr>Cursor = None, Input = [0x79, 0x65, 0x73], Position = 1, erase = True\<rparr>"
        and position = "- 2" and shift = 0, THEN conjunct2, THEN conjunct2, THEN conjunct1]
    by simp
  have m9: "Move (- 9) \<lparr>Cursor = None, Input = [0x79, 0x65, 0x73], Position = 1, erase = True\<rparr>
     = \<lparr>Cursor = None, Input = [0x79, 0x65, 0x73], Position = 0, erase = True\<rparr>"
    using t [where c = "\<lparr>Cursor = None, Input = [0x79, 0x65, 0x73], Position = 1, erase = True\<rparr>"
        and position = 0 and shift = "- 9", THEN conjunct2, THEN conjunct2, THEN conjunct2,
        THEN conjunct1]
    by (simp add: int64_def)
  have m1: "Move 1 \<lparr>Cursor = None, Input = [0x79, 0x65, 0x73], Position = 1, erase = True\<rparr>
     = \<lparr>Cursor = None, Input = [0x79, 0x65, 0x73], Position = 2, erase = True\<rparr>"
    using t [where c = "\<lparr>Cursor = None, Input = [0x79, 0x65, 0x73], Position = 1, erase = True\<rparr>"
        and position = 0 and shift = 1, THEN conjunct2, THEN conjunct2, THEN conjunct2,
        THEN conjunct1]
    by (simp add: int64_def)
  show ?thesis using h r p7 p2 m9 m1 by (intro conjI)
qed

text \<open>
  \<^bold>\<open>C3.\<close> \<open>Format\<close> and a marker that writes to its slice. The specification expects
  \<open>Format\<close> to return the buffer with the one rune under the caret replaced by the
  marker's output, prefix and suffix untouched, and the source announces that the input
  is kept pristine. For a marker that only reads its argument this holds, and the cursor
  is unchanged (\<open>Format_reads_only\<close>): the three markers of the source are such. But
  \<^verbatim>\<open>format\<close> hands the marker the cell of the buffer itself, with the cells after it in
  reach. With the marker that appends a pipe to its argument, on the buffer "abc" at
  position 1, the pipe lands on the "c": \<open>Format\<close> returns "ab||", where the
  specification gives "ab|c", and it leaves the buffer "ab|" in the cursor.
\<close>

theorem Format_marker_overwrites_buffer:
  "Format spare \<lparr>Cursor = Some append_pipe, Input = runes_of_string (lit ''abc''),
                  Position = 1, erase = e\<rparr>
     = Inr (lit ''ab||'',
            \<lparr>Cursor = Some append_pipe, Input = runes_of_string (lit ''ab|''),
             Position = 1, erase = e\<rparr>,
            spare) \<and>
   lit ''a'' @ string_of_runes (fst (append_pipe (runes_of_string (lit ''b''))
                                                 (runes_of_string (lit ''c'') @ spare)))
     @ lit ''c'' = lit ''ab|c''"
  by (simp add: Format_def format_def Let_def append_pipe_def overwrite_def lit_def
      string_of_runes_def encoderune_def)



text \<open>
  \<^bold>\<open>C5.\<close> \<open>Listen\<close> on the enter key. \<open>Listen\<close> inserts a non-nil line into the buffer
  before it looks at the key, so the enter key returns the buffer and position after that
  insertion, with the continuation flag \<open>False\<close>. With a nil line the cursor is unchanged
  and the returned line and position are those the cursor held before the call; the line
  goes through \<^verbatim>\<open>string\<close> and back, so a rune of the buffer that is no Unicode scalar
  value comes back as U+FFFD. With a line \<open>line\<close>, on a cursor in bounds, the returned
  line and position are those of the cursor after the runes of \<open>line\<close> were spliced in at
  the position and the position moved forward by their number. The enter key is
  recognised when its code is not 0, the case the switch tests first.
\<close>

theorem Listen_enter_returns_after_update:
  "key = KeyEnter ks \<and> key \<noteq> 0 \<longrightarrow>
     Listen ks None pos key c = Inr ((map replace_invalid (Input c), Position c, False), c) \<and>
     (list_all ValidRune (Input c) \<longrightarrow>
        Listen ks None pos key c = Inr ((Input c, Position c, False), c)) \<and>
     (in_bounds c \<and> fits_int (int (length (Input c)) + int (length line)) \<longrightarrow>
        (\<exists>c'. c' = c\<lparr>Input := take (nat (Position c)) (Input c) @ map replace_invalid line
                                   @ drop (nat (Position c)) (Input c),
                         Position := Position c + int (length line)\<rparr> \<and>
              Listen ks (Some line) pos key c
                = Inr ((map replace_invalid (Input c'), Position c', False), c')))"
proof (intro impI conjI)
  assume k: "key = KeyEnter ks \<and> key \<noteq> 0"
  then show n: "Listen ks None pos key c = Inr ((map replace_invalid (Input c), Position c, False), c)"
    using Listen_enter [of key ks None pos c] by simp
  {
    assume "list_all ValidRune (Input c)"
    then show "Listen ks None pos key c = Inr ((Input c, Position c, False), c)"
      using n by (simp add: map_replace_invalid_valid)
  }
  {
    assume a: "in_bounds c \<and> fits_int (int (length (Input c)) + int (length line))"
    have r: "runes_of_string (string_of_line (Some line)) = map replace_invalid line"
      by (simp add: string_of_line_def runes_of_string_of_runes)
    have "Update (string_of_line (Some line)) c
            = Inr (c\<lparr>Input := take (nat (Position c)) (Input c) @ map replace_invalid line
                                   @ drop (nat (Position c)) (Input c),
                       Position := Position c + int (length line)\<rparr>)"
      using Update_result [of c "string_of_line (Some line)"] a by (simp add: r)
    then show "\<exists>c'. c' = c\<lparr>Input := take (nat (Position c)) (Input c) @ map replace_invalid line
                                   @ drop (nat (Position c)) (Input c),
                         Position := Position c + int (length line)\<rparr> \<and>
              Listen ks (Some line) pos key c
                = Inr ((map replace_invalid (Input c'), Position c', False), c')"
      using k Listen_enter [of key ks "Some line" pos c] by simp
  }
qed

theorem Listen_enter_returns_after_update_witness:
  "Listen \<lparr>KeyEnter = 13, KeyBackspace = 127, KeyForward = 6, KeyBackward = 2\<rparr> None 0 13
     \<lparr>Cursor = None, Input = [0x61, 0x62], Position = 1, erase = True\<rparr>
     = Inr (([0x61, 0x62], 1, False),
            \<lparr>Cursor = None, Input = [0x61, 0x62], Position = 1, erase = True\<rparr>) \<and>
   Listen \<lparr>KeyEnter = 13, KeyBackspace = 127, KeyForward = 6, KeyBackward = 2\<rparr>
       (Some [0x78, 0xD800]) 0 13
       \<lparr>Cursor = None, Input = [0x61, 0x62], Position = 1, erase = True\<rparr>
     = Inr (([0x61, 0x78, 0xFFFD, 0x62], 3, False),
            \<lparr>Cursor = None, Input = [0x61, 0x78, 0xFFFD, 0x62], Position = 3, erase = True\<rparr>)"
proof -
  have h: "(13::int) = KeyEnter \<lparr>KeyEnter = 13, KeyBackspace = 127, KeyForward = 6, KeyBackward = 2\<rparr>
           \<and> (13::int) \<noteq> 0"
    by simp
  have v: "list_all ValidRune
             (Input \<lparr>Cursor = None, Input = [0x61, 0x62], Position = 1, erase = True\<rparr>)"
    by (simp add: ValidRune_def)
  have b: "in_bounds \<lparr>Cursor = None, Input = [0x61, 0x62], Position = 1, erase = True\<rparr> \<and>
           fits_int (int (length (Input \<lparr>Cursor = None, Input = [0x61, 0x62], Position = 1,
                                          erase = True\<rparr>))
                     + int (length [0x78, 0xD800 :: int]))"
    by (simp add: in_bounds_def fits_int_def)
  note t = Listen_enter_returns_after_update [rule_format, OF h, THEN conjunct2]
  from t [THEN conjunct1, rule_format, OF v, of 0] t [THEN conjunct2, rule_format, OF b, of 0]
  show ?thesis by (simp add: replace_invalid_def ValidRune_def)
qed

text \<open>
  The returned line and position are not always those held before the call: on the
  buffer "ab" at position 2, the enter key with the line "x" returns "abx" and 3.
\<close>

theorem Listen_enter_counterexample:
  "Listen \<lparr>KeyEnter = 13, KeyBackspace = 127, KeyForward = 6, KeyBackward = 2\<rparr>
       (Some [0x78]) 0 13 \<lparr>Cursor = None, Input = [0x61, 0x62], Position = 2, erase = False\<rparr>
     = Inr (([0x61, 0x62, 0x78], 3, False),
            \<lparr>Cursor = None, Input = [0x61, 0x62, 0x78], Position = 3, erase = False\<rparr>) \<and>
   [0x61, 0x62, 0x78] \<noteq> Input \<lparr>Cursor = None, Input = [0x61, 0x62], Position = 2, erase = False\<rparr> \<and>
   3 \<noteq> Position \<lparr>Cursor = None, Input = [0x61, 0x62], Position = 2, erase = False\<rparr>"
  by (simp add: Listen_def Update_def Move_def int64_def correctPosition_def Listen_return_def
      Get_def string_of_line_def string_of_runes_def encoderune_def Let_def)

text \<open>
  \<^bold>\<open>C6.\<close> \<open>Backspace\<close> removes the rune before the caret. On a cursor in bounds (whose
  position is a Go \<^verbatim>\<open>int\<close>), \<open>Backspace\<close> at position 0 returns the cursor as it is,
  without a panic; at a position \<open>p > 0\<close>, at the end of the buffer or inside it, it
  removes exactly the rune at index \<open>p - 1\<close>, the runes after it moving one place to the
  left, and the position becomes \<open>p - 1\<close>.
\<close>

theorem Backspace_removes_preceding:
  assumes "in_bounds c" and "fits_int (Position c)"
  shows "Backspace c =
           Inr (if Position c = 0 then c
                else c\<lparr>Input := take (nat (Position c) - 1) (Input c)
                                  @ drop (nat (Position c)) (Input c),
                       Position := Position c - 1\<rparr>)"
  using assms by (rule Backspace_result)

theorem Backspace_removes_preceding_witness:
  "in_bounds \<lparr>Cursor = None, Input = [0x61, 0x62, 0x63], Position = 2, erase = False\<rparr> \<and>
   fits_int 2 \<and>
   Backspace \<lparr>Cursor = None, Input = [0x61, 0x62, 0x63], Position = 2, erase = False\<rparr>
     = Inr \<lparr>Cursor = None, Input = [0x61, 0x63], Position = 1, erase = False\<rparr>"
proof -
  have h: "in_bounds \<lparr>Cursor = None, Input = [0x61, 0x62, 0x63], Position = 2, erase = False\<rparr>"
    by (simp add: in_bounds_def)
  have f: "fits_int (Position \<lparr>Cursor = None, Input = [0x61, 0x62, 0x63], Position = 2, erase = False\<rparr>)"
    by (simp add: fits_int_def)
  show ?thesis
    using h f Backspace_removes_preceding [OF h f] by (simp add: numeral_2_eq_2)
qed

text \<open>
  \<^bold>\<open>C7.\<close> \<open>Backspace\<close> and then \<open>Update\<close> with the removed rune is the identity. On a
  cursor with \<open>0 < Position \<le> length Input\<close> (the length being a Go \<^verbatim>\<open>int\<close>), and a
  string \<open>s\<close> that holds exactly the rune before the caret, \<open>Backspace\<close> followed by
  \<open>Update s\<close> gives back the cursor: the same buffer and the same position. At position
  0 \<open>Backspace\<close> removes nothing.
\<close>

theorem Backspace_Update_round_trip:
  "(0 < Position c \<and> Position c \<le> int (length (Input c)) \<and> fits_int (int (length (Input c)))
      \<and> runes_of_string s = [Input c ! (nat (Position c) - 1)]
    \<longrightarrow> (\<exists>c1. Backspace c = Inr c1 \<and> Update s c1 = Inr c)) \<and>
   (Position c = 0 \<longrightarrow> Backspace c = Inr c)"
  using Backspace_then_Update [of c s] by (simp add: Backspace_def)

theorem Backspace_Update_round_trip_witness:
  "Backspace \<lparr>Cursor = None, Input = [0x61, 0x62, 0x63], Position = 2, erase = False\<rparr>
     = Inr \<lparr>Cursor = None, Input = [0x61, 0x63], Position = 1, erase = False\<rparr> \<and>
   Update (lit ''b'') \<lparr>Cursor = None, Input = [0x61, 0x63], Position = 1, erase = False\<rparr>
     = Inr \<lparr>Cursor = None, Input = [0x61, 0x62, 0x63], Position = 2, erase = False\<rparr> \<and>
   Backspace \<lparr>Cursor = None, Input = [0x61, 0x62, 0x63], Position = 0, erase = False\<rparr>
     = Inr \<lparr>Cursor = None, Input = [0x61, 0x62, 0x63], Position = 0, erase = False\<rparr>"
proof -
  have h: "0 < Position \<lparr>Cursor = None, Input = [0x61, 0x62, 0x63], Position = 2, erase = False\<rparr>
      \<and> Position \<lparr>Cursor = None, Input = [0x61, 0x62, 0x63], Position = 2, erase = False\<rparr>
          \<le> int (length (Input \<lparr>Cursor = None, Input = [0x61, 0x62, 0x63], Position = 2,
                                   erase = False\<rparr>))
      \<and> fits_int (int (length (Input \<lparr>Cursor = None, Input = [0x61, 0x62, 0x63], Position = 2,
                                       erase = False\<rparr>)))
      \<and> runes_of_string (lit ''b'')
          = [Input \<lparr>Cursor = None, Input = [0x61, 0x62, 0x63], Position = 2, erase = False\<rparr>
               ! (nat (Position \<lparr>Cursor = None, Input = [0x61, 0x62, 0x63], Position = 2,
                                 erase = False\<rparr>) - 1)]"
    by (simp add: fits_int_def lit_def numeral_2_eq_2)
  have z: "Position \<lparr>Cursor = None, Input = [0x61, 0x62, 0x63], Position = 0, erase = False\<rparr> = 0"
    by simp
  have b: "Backspace \<lparr>Cursor = None, Input = [0x61, 0x62, 0x63], Position = 2, erase = False\<rparr>
     = Inr \<lparr>Cursor = None, Input = [0x61, 0x63], Position = 1, erase = False\<rparr>"
    by (simp add: Backspace_def Let_def Move_def int64_def correctPosition_def)
  from Backspace_Update_round_trip [THEN conjunct1, rule_format, OF h]
    Backspace_Update_round_trip [THEN conjunct2, rule_format, OF z]
  show ?thesis by (simp add: b)
qed

text \<open>
  \<^bold>\<open>C8.\<close> \<open>Update\<close> splices the text in before the caret. On a cursor in bounds, for
  every string \<open>t\<close> (the new buffer having a length that is a Go \<^verbatim>\<open>int\<close>), \<open>Update t\<close>
  makes the buffer the runes before the position, then the runes of \<open>t\<close>, then the runes
  from the position on, and moves the position forward by the number of runes of \<open>t\<close>.
\<close>

theorem Update_splices_before_caret:
  assumes "in_bounds c"
    and "fits_int (int (length (Input c)) + int (length (runes_of_string t)))"
  shows "Update t c =
           Inr (c\<lparr>Input := take (nat (Position c)) (Input c) @ runes_of_string t
                            @ drop (nat (Position c)) (Input c),
                   Position := Position c + int (length (runes_of_string t))\<rparr>)"
  using assms by (rule Update_result)

theorem Update_splices_before_caret_witness:
  "in_bounds \<lparr>Cursor = None, Input = [0x61, 0x62, 0x63], Position = 1, erase = False\<rparr> \<and>
   fits_int (3 + int (length (runes_of_string (lit ''xy'')))) \<and>
   Update (lit ''xy'') \<lparr>Cursor = None, Input = [0x61, 0x62, 0x63], Position = 1, erase = False\<rparr>
     = Inr \<lparr>Cursor = None, Input = [0x61, 0x78, 0x79, 0x62, 0x63], Position = 3, erase = False\<rparr>"
proof -
  have h: "in_bounds \<lparr>Cursor = None, Input = [0x61, 0x62, 0x63], Position = 1, erase = False\<rparr>"
    by (simp add: in_bounds_def)
  have f: "fits_int (int (length (Input \<lparr>Cursor = None, Input = [0x61, 0x62, 0x63], Position = 1, erase = False\<rparr>))
             + int (length (runes_of_string (lit ''xy''))))"
    by (simp add: fits_int_def lit_def)
  show ?thesis
    using h f Update_splices_before_caret [OF h f] by (simp add: lit_def)
qed

text \<open>
  \<^bold>\<open>C9.\<close> The marker of \<open>blockCursor\<close>. \<open>defaultCursor\<close> returns the full block U+2588
  and \<open>pipeCursor\<close> puts a pipe before its input (\<open>defaultCursor_result\<close>,
  \<open>pipeCursor_result\<close>). \<open>blockCursor\<close> is documented to invert the colours of its
  input, which takes the escape character 0x1B before \<^verbatim>\<open>[7m\<close> and \<^verbatim>\<open>[0m\<close>; its format
  string spells a backslash and the letter e instead, so on "a" it returns eleven
  runes, a backslash and an e before each bracket, the first of them 0x5C.
\<close>

theorem blockCursor_writes_backslash_e:
  "blockCursor (runes_of_string (lit ''a''))
     = [0x5C, 0x65, 0x5B, 0x37, 0x6D, 0x61, 0x5C, 0x65, 0x5B, 0x30, 0x6D] \<and>
   hd (blockCursor (runes_of_string (lit ''a''))) \<noteq> 0x1B"
  by (simp add: blockCursor_def lit_def string_of_runes_def encoderune_def)

text \<open>
  \<^bold>\<open>C10.\<close> The erase flag is never set again. \<open>NewCursor\<close> gives the flag the value of
  \<^verbatim>\<open>eraseDefault\<close>; no sequence of calls turns a cleared flag into a set one; and a
  \<open>Listen\<close> call that returns leaves the flag set exactly when it was set and the key
  is 0, the enter key or the backward key: the backspace key, the forward key and every
  key of the default branch clear it.
\<close>

theorem erase_never_set_again:
  "erase (NewCursor startingInput pointer eraseDefault) = eraseDefault \<and>
   (calls_on ks xs c = Inr c' \<and> erase c' \<longrightarrow> erase c) \<and>
   (Listen ks line pos key c = Inr (ret, c'') \<longrightarrow>
      erase c'' = (erase c \<and> (key = 0 \<or> key = KeyEnter ks \<or>
         (key = KeyBackward ks \<and> key \<noteq> KeyBackspace ks \<and> key \<noteq> KeyForward ks))))"
proof (intro conjI impI)
  show "erase (NewCursor startingInput pointer eraseDefault) = eraseDefault"
    by (simp add: NewCursor_def Let_def Start_def End_def)
next
  assume "calls_on ks xs c = Inr c' \<and> erase c'"
  then show "erase c" using calls_on_erase by blast
next
  assume "Listen ks line pos key c = Inr (ret, c'')"
  then show "erase c'' = (erase c \<and> (key = 0 \<or> key = KeyEnter ks \<or>
         (key = KeyBackward ks \<and> key \<noteq> KeyBackspace ks \<and> key \<noteq> KeyForward ks)))"
    by (rule Listen_erase)
qed

theorem erase_never_set_again_witness:
  "calls_on \<lparr>KeyEnter = 13, KeyBackspace = 127, KeyForward = 6, KeyBackward = 2\<rparr>
       [CallListen None 0 2, CallMove 5]
       \<lparr>Cursor = None, Input = [0x79, 0x65, 0x73], Position = 0, erase = True\<rparr>
     = Inr \<lparr>Cursor = None, Input = [0x79, 0x65, 0x73], Position = 3, erase = True\<rparr> \<and>
   erase \<lparr>Cursor = None, Input = [0x79, 0x65, 0x73], Position = 0, erase = True\<rparr> \<and>
   Listen \<lparr>KeyEnter = 13, KeyBackspace = 127, KeyForward = 6, KeyBackward = 2\<rparr> None 0 6
       \<lparr>Cursor = None, Input = [0x79, 0x65, 0x73], Position = 0, erase = True\<rparr>
     = Inr (([0x79, 0x65, 0x73], 1, True),
            \<lparr>Cursor = None, Input = [0x79, 0x65, 0x73], Position = 1, erase = False\<rparr>) \<and>
   \<not> erase \<lparr>Cursor = None, Input = [0x79, 0x65, 0x73], Position = 1, erase = False\<rparr>"
proof -
  have r: "calls_on \<lparr>KeyEnter = 13, KeyBackspace = 127, KeyForward = 6, KeyBackward = 2\<rparr>
       [CallListen None 0 2, CallMove 5]
       \<lparr>Cursor = None, Input = [0x79, 0x65, 0x73], Position = 0, erase = True\<rparr>
     = Inr \<lparr>Cursor = None, Input = [0x79, 0x65, 0x73], Position = 3, erase = True\<rparr>
     \<and> erase \<lparr>Cursor = None, Input = [0x79, 0x65, 0x73], Position = 3, erase = True\<rparr>"
    by (simp add: Listen_def Listen_return_def Move_def int64_def correctPosition_def Let_def)
  have l: "Listen \<lparr>KeyEnter = 13, KeyBackspace = 127, KeyForward = 6, KeyBackward = 2\<rparr> None 0 6
       \<lparr>Cursor = None, Input = [0x79, 0x65, 0x73], Position = 0, erase = True\<rparr>
     = Inr (([0x79, 0x65, 0x73], 1, True),
            \<lparr>Cursor = None, Input = [0x79, 0x65, 0x73], Position = 1, erase = False\<rparr>)"
    by (simp add: Listen_def Listen_return_def Move_def int64_def correctPosition_def Let_def
        Get_def string_of_runes_def encoderune_def)
  note t = erase_never_set_again [where eraseDefault = True and startingInput = "[]"
      and pointer = None]
  from t [THEN conjunct2, THEN conjunct1, rule_format, OF r]
    t [THEN conjunct2, THEN conjunct2, rule_format, OF l] r l
  show ?thesis by simp
qed

end
